theory Spec2Isabelle
  imports Main
begin

section \<open>Configuration\<close>

text \<open>
  The module-level constants of \<^verbatim>\<open>file_monitor.py\<close> that the monitor reads. They are
  loaded once from the process environment, so they are one immutable value here.
  \<open>BOT_TOKEN\<close> and \<open>MONITOR_TOKEN\<close> come from \<^verbatim>\<open>os.getenv\<close> without a default and
  may be absent.
\<close>

record config =
  BOT_TOKEN :: "string option"
  CHAT_ID :: int
  MONITOR_TOKEN :: "string option"
  DOWNLOAD_DIR :: string
  START_INDEX :: int
  END_INDEX :: int
  SUPPORTED_EXTENSIONS :: "string list"

text \<open>Python's truth value of an optional string: \<^verbatim>\<open>None\<close> and \<^verbatim>\<open>""\<close> are false.\<close>

fun truthy :: "string option \<Rightarrow> bool" where
  "truthy None = False"
| "truthy (Some s) = (s \<noteq> [])"

text \<open>
  \<^verbatim>\<open>validate_config\<close> raises \<^verbatim>\<open>ValueError\<close> at the first failing test; the model returns
  whether it passes.
\<close>

definition validate_config :: "config \<Rightarrow> bool" where
  "validate_config cfg =
     (if \<not> truthy (BOT_TOKEN cfg) then False
      else if CHAT_ID cfg = 0 then False
      else if \<not> truthy (MONITOR_TOKEN cfg) then False
      else if START_INDEX cfg > END_INDEX cfg then False
      else if SUPPORTED_EXTENSIONS cfg = [] then False
      else True)"

section \<open>Status reporter\<close>

text \<open>
  \<^verbatim>\<open>class StatusReporter\<close>. Timestamps are readings of an abstract clock (a natural
  number); \<open>start_time\<close> is only read by the report's runtime line and is left out.
  The reporter's own \<open>current_index\<close> field is named \<open>reporter_current_index\<close>, as
  the monitor has a field of the same name.
\<close>

record StatusReporter =
  files_found :: int
  files_downloaded :: int
  last_check_time :: "nat option"
  reporter_current_index :: int
  checks_performed :: int

definition StatusReporter_init :: StatusReporter where
  "StatusReporter_init =
     \<lparr>files_found = 0, files_downloaded = 0, last_check_time = None,
      reporter_current_index = 0, checks_performed = 0\<rparr>"

definition update_stats :: "nat \<Rightarrow> int \<Rightarrow> int \<Rightarrow> StatusReporter \<Rightarrow> StatusReporter" where
  "update_stats now f d sr =
     sr\<lparr>files_found := files_found sr + f,
        files_downloaded := files_downloaded sr + d,
        last_check_time := Some now,
        checks_performed := checks_performed sr + 1\<rparr>"

text \<open>A sequence of calls \<open>update_stats(f, d)\<close>, each with the clock reading at the call.\<close>

fun update_stats_calls :: "(nat \<times> int \<times> int) list \<Rightarrow> StatusReporter \<Rightarrow> StatusReporter" where
  "update_stats_calls [] sr = sr"
| "update_stats_calls ((now, f, d) # cs) sr = update_stats_calls cs (update_stats now f d sr)"

section \<open>The world outside the program\<close>

text \<open>
  Exceptions that the program's own statements can raise and that no handler of the
  function raising them catches: \<^verbatim>\<open>int()\<close> of a header that is not an integer literal,
  \<^verbatim>\<open>open()\<close> of a path that cannot be created, a division by an elapsed time of zero,
  and a division whose operand or result is too large for a float.
\<close>

datatype exn = ValueError | OSError | ZeroDivisionError | OverflowError

text \<open>
  The sizes are integers of any magnitude, the divisions produce floats (IEEE doubles,
  rounded to nearest, ties to even). \<^verbatim>\<open>file_size / (1024 * 1024)\<close> divides two integers and
  raises \<^verbatim>\<open>OverflowError\<close> when the rounded quotient is not a finite double, that is when
  \<open>|file_size| / 2\<^sup>2\<^sup>0 \<ge> 2\<^sup>1\<^sup>0\<^sup>2\<^sup>4 - 2\<^sup>9\<^sup>7\<^sup>0\<close>.
\<close>

definition megabytes_overflow :: "int \<Rightarrow> bool" where
  "megabytes_overflow file_size = (2 ^ 1044 - 2 ^ 990 \<le> \<bar>file_size\<bar>)"

text \<open>
  \<^verbatim>\<open>file_size / (1024 * 1024 * download_time)\<close> divides an integer by a float: the integer
  is converted to a float first, which raises \<^verbatim>\<open>OverflowError\<close> when it rounds to no finite
  double; only then is the divisor compared with zero.
\<close>

definition float_conversion_overflow :: "int \<Rightarrow> bool" where
  "float_conversion_overflow file_size = (2 ^ 1024 - 2 ^ 970 \<le> \<bar>file_size\<bar>)"

text \<open>
  The \<^verbatim>\<open>content-length\<close> header of a response, classified by what
  \<^verbatim>\<open>int(response.headers.get("content-length", 0))\<close> does with it: the header is absent
  (the default \<open>0\<close> is used), it is an integer literal, or it is any other string.
\<close>

datatype cl_header = NoHeader | HeaderInt int | HeaderMalformed

fun int_content_length :: "cl_header \<Rightarrow> exn + int" where
  "int_content_length NoHeader = Inr 0"
| "int_content_length (HeaderInt n) = Inr n"
| "int_content_length HeaderMalformed = Inl ValueError"

text \<open>
  The body of a response fetched with \<^verbatim>\<open>stream=True\<close> is read only when
  \<^verbatim>\<open>response.content\<close> or \<^verbatim>\<open>response.text\<close> is evaluated; the transport can fail there,
  which \<^verbatim>\<open>requests\<close> reports as a \<^verbatim>\<open>RequestException\<close>.
\<close>

datatype body = Content string | ReadError

text \<open>
  The outcome of \<^verbatim>\<open>requests.head\<close> and \<^verbatim>\<open>requests.get\<close>: a response with its status code,
  its \<^verbatim>\<open>content-length\<close> header and its body, or a transport failure
  (\<^verbatim>\<open>requests.RequestException\<close>: timeout, refused connection, ...).
\<close>

datatype http_result = RequestException | Response int cl_header body

datatype post_result = Posted | PostRequestException

text \<open>
  The texts the program logs and sends, by kind and parameters. The f-strings print
  sizes and speeds as floating-point numbers; the messages here carry the integer size,
  and what the model keeps of the float arithmetic is when it raises.
\<close>

datatype message =
    Startup
  | PleaseSetChatId
  | FailedToSend
  | ErrorCheckingExistence
  | DownloadingFile string
  | RenamedTo string
  | DownloadCompleted string int
  | DownloadFailed string int
  | ErrorDownloading string
  | CheckingFile string
  | NewFileFound string int
  | ErrorProcessing string exn
  | StartingFileCheck
  | CurrentCheckIndex int
  | CycleCompleted int int
  | StatusReport int int int int

text \<open>
  What the program does to the outside, in order. \<open>Iteration i\<close> is instrumentation:
  it marks the start of one iteration of the \<^verbatim>\<open>while\<close> loop of \<^verbatim>\<open>check_new_files\<close>, with the
  value of \<^verbatim>\<open>self.current_index\<close> read there; the program emits nothing at that point.
\<close>

datatype event =
    LogInfo message
  | LogError message
  | HeadRequest string
  | GetRequest string
  | PostRequest message
  | Iteration int

text \<open>
  The mutable world: the events so far, and the files on disk as a finite association
  list from paths to contents.
\<close>

record world =
  events :: "event list"
  files :: "(string \<times> string) list"

text \<open>
  The behaviour of the remote servers, the disk and the clock. Every answer may depend
  on the moment of the call, which is the number of events so far.
\<close>

record environment =
  requests_head :: "nat \<Rightarrow> string \<Rightarrow> http_result"
  requests_get :: "nat \<Rightarrow> string \<Rightarrow> http_result"
  requests_post :: "nat \<Rightarrow> message \<Rightarrow> post_result"
  open_fails :: "nat \<Rightarrow> string \<Rightarrow> bool"
  download_time_zero :: "nat \<Rightarrow> bool"

definition emit :: "event \<Rightarrow> world \<Rightarrow> world" where
  "emit e w = w\<lparr>events := events w @ [e]\<rparr>"

definition now :: "world \<Rightarrow> nat" where
  "now w = length (events w)"

text \<open>The cursor values at which the \<^verbatim>\<open>while\<close> loop ran its body, read off the events.\<close>

fun iteration_of :: "event \<Rightarrow> int list" where
  "iteration_of (Iteration i) = [i]"
| "iteration_of _ = []"

definition iterations :: "event list \<Rightarrow> int list" where
  "iterations es = concat (map iteration_of es)"

section \<open>Notifier\<close>

text \<open>
  \<^verbatim>\<open>send_telegram_message\<close>. Its two calls \<^verbatim>\<open>print_status(..., True)\<close> leave
  \<^verbatim>\<open>notify_telegram\<close> at its default \<^verbatim>\<open>False\<close>, so they are \<^verbatim>\<open>logging.error\<close> and nothing
  else; they are written so here, which keeps the two functions from being mutually
  recursive.
\<close>

definition send_telegram_message :: "config \<Rightarrow> environment \<Rightarrow> message \<Rightarrow> world \<Rightarrow> world" where
  "send_telegram_message cfg env msg w =
     (if CHAT_ID cfg = 0 then emit (LogError PleaseSetChatId) w
      else
        (case requests_post env (now w) msg of
           Posted \<Rightarrow> emit (PostRequest msg) w
         | PostRequestException \<Rightarrow> emit (LogError FailedToSend) (emit (PostRequest msg) w)))"

definition print_status ::
  "config \<Rightarrow> environment \<Rightarrow> message \<Rightarrow> bool \<Rightarrow> bool \<Rightarrow> world \<Rightarrow> world" where
  "print_status cfg env msg is_error notify_telegram w =
     (let w1 = (if is_error then emit (LogError msg) w else emit (LogInfo msg) w)
      in if notify_telegram \<and> CHAT_ID cfg \<noteq> 0 then send_telegram_message cfg env msg w1 else w1)"

section \<open>Strings and paths\<close>

text \<open>Python's \<^verbatim>\<open>str\<close> of an integer, as the f-strings use it: decimal, with a minus sign.\<close>

definition digit_char :: "nat \<Rightarrow> char" where
  "digit_char d = ''0123456789'' ! d"

function str_nat :: "nat \<Rightarrow> string" where
  "str_nat n = (if n < 10 then [digit_char n] else str_nat (n div 10) @ [digit_char (n mod 10)])"
  by pat_completeness auto
termination
  by (relation "measure id") auto

declare str_nat.simps [simp del]

definition str_int :: "int \<Rightarrow> string" where
  "str_int i = (if i < 0 then CHR ''-'' # str_nat (nat (- i)) else str_nat (nat i))"

text \<open>\<^verbatim>\<open>str.rfind\<close> of one character: the last position where it stands, or \<open>-1\<close>.\<close>

definition rfind :: "char \<Rightarrow> string \<Rightarrow> int" where
  "rfind c s =
     (case filter (\<lambda>i. s ! i = c) (rev [0..<length s]) of
        [] \<Rightarrow> - 1
      | i # _ \<Rightarrow> int i)"

text \<open>
  \<^verbatim>\<open>os.path.splitext\<close> (POSIX): the extension starts at the last dot, if that dot comes
  after the last slash and some character between the slash and the dot is not a dot.
\<close>

definition os_path_splitext :: "string \<Rightarrow> string \<times> string" where
  "os_path_splitext p =
     (let sepIndex = rfind CHR ''/'' p; dotIndex = rfind CHR ''.'' p
      in if dotIndex > sepIndex
            \<and> list_ex (\<lambda>i. p ! i \<noteq> CHR ''.'') [nat (sepIndex + 1)..<nat dotIndex]
         then (take (nat dotIndex) p, drop (nat dotIndex) p)
         else (p, []))"

text \<open>\<^verbatim>\<open>os.path.join\<close> of two components (POSIX).\<close>

definition os_path_join :: "string \<Rightarrow> string \<Rightarrow> string" where
  "os_path_join a b =
     (if b \<noteq> [] \<and> hd b = CHR ''/'' then b
      else if a = [] \<or> last a = CHR ''/'' then a @ b
      else a @ ''/'' @ b)"

definition os_path_basename :: "string \<Rightarrow> string" where
  "os_path_basename p = drop (nat (rfind CHR ''/'' p + 1)) p"

definition os_path_exists :: "(string \<times> string) list \<Rightarrow> string \<Rightarrow> bool" where
  "os_path_exists fs p = (p \<in> set (map fst fs))"

text \<open>\<^verbatim>\<open>open(path, "wb")\<close> followed by a write of \<open>c\<close>: the file is created or truncated.\<close>

definition write_file :: "string \<Rightarrow> string \<Rightarrow> world \<Rightarrow> world" where
  "write_file p c w = w\<lparr>files := (p, c) # filter (\<lambda>(q, _). q \<noteq> p) (files w)\<rparr>"

text \<open>
  \<open>BASE_URL\<close>. An absent token is formatted by the f-string as \<^verbatim>\<open>None\<close>.
\<close>

definition BASE_URL :: "config \<Rightarrow> string" where
  "BASE_URL cfg =
     ''https://api.telegram.org/file/bot''
       @ (case MONITOR_TOKEN cfg of None \<Rightarrow> ''None'' | Some t \<Rightarrow> t) @ ''/documents/''"

section \<open>Existence checker\<close>

definition check_file_exists ::
  "config \<Rightarrow> environment \<Rightarrow> string \<Rightarrow> world \<Rightarrow> (exn + bool \<times> int) \<times> world" where
  "check_file_exists cfg env url w =
     (case requests_head env (now w) url of
        RequestException \<Rightarrow>
          (Inr (False, 0),
           print_status cfg env ErrorCheckingExistence True True (emit (HeadRequest url) w))
      | Response status_code hdr _ \<Rightarrow>
          if status_code = 200 then
            (case int_content_length hdr of
               Inl e \<Rightarrow> (Inl e, emit (HeadRequest url) w)
             | Inr file_size \<Rightarrow> (Inr (True, file_size), emit (HeadRequest url) w))
          else (Inr (False, 0), emit (HeadRequest url) w))"

section \<open>Downloader\<close>

text \<open>How long the decimal numerals get: needed to see that the renaming loop ends.\<close>

lemma str_nat_bound: "n < 10 ^ length (str_nat n)"
proof (induction n rule: str_nat.induct)
  case (1 n)
  show ?case
  proof (cases "n < 10")
    case True
    then show ?thesis by (simp add: str_nat.simps [of n])
  next
    case False
    with "1" have "n div 10 < 10 ^ length (str_nat (n div 10))" by simp
    then have "n < 10 * 10 ^ length (str_nat (n div 10))" by arith
    with False show ?thesis by (simp add: str_nat.simps [of n])
  qed
qed

lemma length_os_path_join: "length b \<le> length (os_path_join a b)"
  by (simp add: os_path_join_def)

lemma existing_path_length:
  "os_path_exists fs p \<Longrightarrow> length p \<le> sum_list (map (length \<circ> fst) fs)"
  using member_le_sum_list [of "length p" "map (length \<circ> fst) fs"]
  by (auto simp: os_path_exists_def)

lemma numbered_path_free:
  assumes "10 ^ sum_list (map (length \<circ> fst) fs) \<le> counter"
  shows "\<not> os_path_exists fs (os_path_join dir (base_name @ ''_'' @ str_nat counter @ ext))"
proof
  let ?b = "sum_list (map (length \<circ> fst) fs)"
  let ?p = "os_path_join dir (base_name @ ''_'' @ str_nat counter @ ext)"
  assume "os_path_exists fs ?p"
  then have "length ?p \<le> ?b" by (rule existing_path_length)
  moreover have "length (str_nat counter) \<le> length ?p"
    using length_os_path_join [of "base_name @ ''_'' @ str_nat counter @ ext" dir] by simp
  ultimately have "length (str_nat counter) \<le> ?b" by simp
  then have "(10::nat) ^ length (str_nat counter) \<le> 10 ^ ?b" by (simp add: power_increasing)
  with str_nat_bound [of counter] assms show False by simp
qed

text \<open>
  The \<^verbatim>\<open>while os.path.exists(final_path)\<close> loop of \<^verbatim>\<open>download_file\<close>, on its two variables
  \<open>final_path\<close> and \<open>counter\<close>.
\<close>

function download_file_while ::
  "(string \<times> string) list \<Rightarrow> string \<Rightarrow> string \<Rightarrow> string \<Rightarrow> string \<Rightarrow> nat \<Rightarrow> string \<times> nat" where
  "download_file_while fs dir base_name ext final_path counter =
     (if os_path_exists fs final_path
      then download_file_while fs dir base_name ext
             (os_path_join dir (base_name @ ''_'' @ str_nat counter @ ext)) (counter + 1)
      else (final_path, counter))"
  by pat_completeness auto
termination
proof (relation "measure (\<lambda>(fs, dir, base_name, ext, final_path, counter).
          2 * (10 ^ sum_list (map (length \<circ> fst) fs) + 1 - counter)
          + (if os_path_exists fs final_path then 1 else 0))", goal_cases)
  case 1
  show ?case by simp
next
  case (2 fs dir base_name ext final_path counter)
  show ?case
  proof (cases "10 ^ sum_list (map (length \<circ> fst) fs) \<le> counter")
    case True
    from numbered_path_free [OF True] 2 show ?thesis by simp
  next
    case False
    define B :: nat where "B = 10 ^ sum_list (map (length \<circ> fst) fs)"
    from False have "counter < B" by (simp add: B_def)
    then have "2 * (B + 1 - (counter + 1)) + 1 < 2 * (B + 1 - counter) + 1" by arith
    with 2 show ?thesis by (simp add: B_def)
  qed
qed

declare download_file_while.simps [simp del]

definition download_file ::
  "config \<Rightarrow> environment \<Rightarrow> string \<Rightarrow> string \<Rightarrow> world \<Rightarrow> (exn + bool) \<times> world" where
  "download_file cfg env url filename w =
     (let w1 = print_status cfg env (DownloadingFile filename) False False w;
          w2 = emit (GetRequest url) w1
      in case requests_get env (now w1) url of
           RequestException \<Rightarrow>
             (Inr False, print_status cfg env (ErrorDownloading filename) True True w2)
         | Response status_code hdr content \<Rightarrow>
             if status_code = 200 then
               (let (base_name, ext) = os_path_splitext filename;
                    (final_path, counter) =
                       download_file_while (files w2) (DOWNLOAD_DIR cfg) base_name ext
                         (os_path_join (DOWNLOAD_DIR cfg) filename) 1;
                    filename' = (if counter > 1 then os_path_basename final_path else filename);
                    w3 = (if counter > 1
                          then print_status cfg env (RenamedTo filename') False False w2 else w2)
                in case int_content_length hdr of
                     Inl e \<Rightarrow> (Inl e, w3)
                   | Inr file_size \<Rightarrow>
                       if megabytes_overflow file_size then (Inl OverflowError, w3)
                       else if open_fails env (now w3) final_path then (Inl OSError, w3)
                       else
                         (case content of
                            ReadError \<Rightarrow>
                              (Inr False,
                               print_status cfg env (ErrorDownloading filename') True True
                                 (write_file final_path [] w3))
                          | Content c \<Rightarrow>
                              (let w4 = write_file final_path c w3
                               in if float_conversion_overflow file_size
                                  then (Inl OverflowError, w4)
                                  else if download_time_zero env (now w4)
                                  then (Inl ZeroDivisionError, w4)
                                  else (Inr True,
                                        print_status cfg env
                                          (DownloadCompleted filename' file_size) False True w4))))
             else
               (case content of
                  ReadError \<Rightarrow>
                    (Inr False, print_status cfg env (ErrorDownloading filename) True True w2)
                | Content c \<Rightarrow>
                    (Inr False,
                     print_status cfg env (DownloadFailed filename status_code) True True w2)))"

section \<open>Scan loop\<close>

text \<open>\<^verbatim>\<open>class FileMonitor\<close>: the scan cursor, the seen-set and the status reporter.\<close>

record FileMonitor =
  current_index :: int
  found_files :: "string set"
  status_reporter :: StatusReporter

text \<open>
  \<^verbatim>\<open>FileMonitor.__init__\<close>. Creating the download directory changes no file of the model.
\<close>

definition FileMonitor_init :: "config \<Rightarrow> environment \<Rightarrow> world \<Rightarrow> FileMonitor \<times> world" where
  "FileMonitor_init cfg env w =
     (\<lparr>current_index = 0, found_files = {}, status_reporter = StatusReporter_init\<rparr>,
      send_telegram_message cfg env Startup w)"

definition candidate_filename :: "int \<Rightarrow> string \<Rightarrow> string" where
  "candidate_filename index ext = ''file_'' @ str_int index @ ''.'' @ ext"

definition candidate_url :: "config \<Rightarrow> int \<Rightarrow> string \<Rightarrow> string" where
  "candidate_url cfg index ext = BASE_URL cfg @ ''/'' @ candidate_filename index ext"

text \<open>
  \<^verbatim>\<open>process_file\<close>. The \<^verbatim>\<open>try\<close> block holds the probe, the conversion of the size to
  megabytes, the alert and the download; its handler \<^verbatim>\<open>except Exception\<close> logs and
  notifies, and the function then returns \<^verbatim>\<open>(False, False)\<close>.
\<close>

definition process_file ::
  "config \<Rightarrow> environment \<Rightarrow> int \<Rightarrow> string \<Rightarrow> FileMonitor \<Rightarrow> world
     \<Rightarrow> (bool \<times> bool) \<times> FileMonitor \<times> world" where
  "process_file cfg env index ext m w =
     (let filename = candidate_filename index ext;
          url = candidate_url cfg index ext
      in if url \<in> found_files m then ((False, False), m, w)
         else
           (let w1 = print_status cfg env (CheckingFile filename) False False w
            in case check_file_exists cfg env url w1 of
                 (Inl e, w2) \<Rightarrow>
                   ((False, False), m,
                    print_status cfg env (ErrorProcessing filename e) True True w2)
               | (Inr (exists, file_size), w2) \<Rightarrow>
                   if exists then
                     if megabytes_overflow file_size
                     then ((False, False), m,
                           print_status cfg env (ErrorProcessing filename OverflowError)
                             True True w2)
                     else
                       (let w3 = send_telegram_message cfg env
                                   (NewFileFound filename file_size) w2
                        in case download_file cfg env url filename w3 of
                             (Inl e, w4) \<Rightarrow>
                               ((False, False), m,
                                print_status cfg env (ErrorProcessing filename e) True True w4)
                           | (Inr downloaded, w4) \<Rightarrow>
                               if downloaded
                               then ((True, True),
                                     m\<lparr>found_files := insert url (found_files m)\<rparr>, w4)
                               else ((True, False), m, w4))
                   else ((False, False), m, w2)))"

text \<open>
  The state of one scan pass: the monitor, the world, and the local counters
  \<open>files_found\<close> and \<open>files_downloaded\<close> of \<^verbatim>\<open>check_new_files\<close>.
\<close>

type_synonym pass_state = "FileMonitor \<times> world \<times> int \<times> int"

text \<open>\<^verbatim>\<open>for ext in SUPPORTED_EXTENSIONS\<close>, on the extensions still to come.\<close>

fun check_new_files_for :: "config \<Rightarrow> environment \<Rightarrow> string list \<Rightarrow> pass_state \<Rightarrow> pass_state" where
  "check_new_files_for cfg env [] st = st"
| "check_new_files_for cfg env (ext # exts) (m, w, found_count, downloaded_count) =
     (case process_file cfg env (current_index m) ext m w of
        ((found, downloaded), m', w') \<Rightarrow>
          check_new_files_for cfg env exts
            (m', w',
             (if found then found_count + 1 else found_count),
             (if found \<and> downloaded then downloaded_count + 1 else downloaded_count)))"

lemma current_index_process_file:
  "process_file cfg env index ext m w = (r, m', w') \<Longrightarrow> current_index m' = current_index m"
  by (auto simp: process_file_def Let_def split: if_splits prod.splits sum.splits)

lemma current_index_for:
  "check_new_files_for cfg env exts (m, w, fc, dc) = (m', w', fc', dc')
     \<Longrightarrow> current_index m' = current_index m"
proof (induction exts arbitrary: m w fc dc)
  case Nil
  then show ?case by simp
next
  case (Cons ext exts)
  obtain f d m1 w1 where p: "process_file cfg env (current_index m) ext m w = ((f, d), m1, w1)"
    by (metis prod.exhaust)
  from Cons.prems have "current_index m' = current_index m1"
    by (simp add: p Cons.IH)
  with current_index_process_file [OF p] show ?case by simp
qed

text \<open>
  \<^verbatim>\<open>while self.current_index <= END_INDEX\<close>, with its \<^verbatim>\<open>break\<close> after the reset of the
  cursor. The cursor is read again after the \<^verbatim>\<open>for\<close> loop, as \<^verbatim>\<open>self.current_index += 1\<close>
  does.
\<close>

function check_new_files_while :: "config \<Rightarrow> environment \<Rightarrow> pass_state \<Rightarrow> pass_state" where
  "check_new_files_while cfg env (m, w, found_count, downloaded_count) =
     (if current_index m \<le> END_INDEX cfg then
        (case check_new_files_for cfg env (SUPPORTED_EXTENSIONS cfg)
                (m, emit (Iteration (current_index m)) w, found_count, downloaded_count) of
           (m1, w1, found_count1, downloaded_count1) \<Rightarrow>
             (let m2 = m1\<lparr>current_index := current_index m1 + 1\<rparr>
              in if current_index m2 > END_INDEX cfg
                 then (m2\<lparr>current_index := START_INDEX cfg\<rparr>,
                       print_status cfg env (CycleCompleted (START_INDEX cfg) (END_INDEX cfg))
                         False False w1,
                       found_count1, downloaded_count1)
                 else check_new_files_while cfg env (m2, w1, found_count1, downloaded_count1)))
      else (m, w, found_count, downloaded_count))"
  by pat_completeness auto
termination
proof (relation "measure (\<lambda>(cfg, env, m, w, fc, dc). nat (END_INDEX cfg + 1 - current_index m))",
    goal_cases)
  case 1
  show ?case by simp
next
  case (2 cfg env m w fc dc m1 rest1 w1 rest2 fc1 dc1 m2)
  from 2 have "check_new_files_for cfg env (SUPPORTED_EXTENSIONS cfg)
               (m, emit (Iteration (current_index m)) w, fc, dc) = (m1, w1, fc1, dc1)"
    by simp
  then have "current_index m1 = current_index m" by (rule current_index_for)
  with 2 show ?case by simp
qed

declare check_new_files_while.simps [simp del]

definition check_new_files :: "config \<Rightarrow> environment \<Rightarrow> FileMonitor \<Rightarrow> world \<Rightarrow> FileMonitor \<times> world" where
  "check_new_files cfg env m w =
     (let w1 = print_status cfg env StartingFileCheck False False w;
          w2 = print_status cfg env (CurrentCheckIndex (current_index m)) False False w1
      in case check_new_files_while cfg env (m, w2, 0, 0) of
           (m', w', found_count, downloaded_count) \<Rightarrow>
             (let sr = update_stats (now w') found_count downloaded_count (status_reporter m');
                  sr' = sr\<lparr>reporter_current_index := current_index m'\<rparr>
              in (m'\<lparr>status_reporter := sr'\<rparr>, w')))"

text \<open>\<^verbatim>\<open>send_status_report\<close>: the report carries the four counters it prints.\<close>

definition send_status_report :: "config \<Rightarrow> environment \<Rightarrow> FileMonitor \<Rightarrow> world \<Rightarrow> world" where
  "send_status_report cfg env m w =
     (let sr = status_reporter m
      in send_telegram_message cfg env
           (StatusReport (checks_performed sr) (files_found sr) (files_downloaded sr)
              (reporter_current_index sr)) w)"

section \<open>Driver\<close>

text \<open>
  \<^verbatim>\<open>main\<close> builds the monitor, runs one scan pass at once, and then runs the two scheduled
  jobs for ever, one at a time. A finite prefix of that run is the list of the jobs that
  came due, in order.
\<close>

datatype job = CheckNewFiles | SendStatusReport

fun run_pending :: "config \<Rightarrow> environment \<Rightarrow> job list \<Rightarrow> FileMonitor \<times> world \<Rightarrow> FileMonitor \<times> world" where
  "run_pending cfg env [] st = st"
| "run_pending cfg env (CheckNewFiles # js) (m, w) =
     run_pending cfg env js (check_new_files cfg env m w)"
| "run_pending cfg env (SendStatusReport # js) (m, w) =
     run_pending cfg env js (m, send_status_report cfg env m w)"

definition main :: "config \<Rightarrow> environment \<Rightarrow> job list \<Rightarrow> world \<Rightarrow> FileMonitor \<times> world" where
  "main cfg env js w =
     (case FileMonitor_init cfg env w of
        (m, w1) \<Rightarrow> run_pending cfg env js (check_new_files cfg env m w1))"

section \<open>Concrete configurations and remotes\<close>

text \<open>A world with no events yet and an empty download directory.\<close>

definition quiet_world :: world where
  "quiet_world = \<lparr>events = [], files = []\<rparr>"

text \<open>A configuration that passes \<open>validate_config\<close> whenever \<open>start \<le> stop\<close>.\<close>

definition scenario_config :: "int \<Rightarrow> int \<Rightarrow> config" where
  "scenario_config start stop =
     \<lparr>BOT_TOKEN = Some ''bot'', CHAT_ID = 1, MONITOR_TOKEN = Some ''mon'',
      DOWNLOAD_DIR = ''downloaded_files'', START_INDEX = start, END_INDEX = stop,
      SUPPORTED_EXTENSIONS = [''txt'']\<rparr>"

text \<open>
  A remote that answers \<open>r\<close> for the one URL \<open>url\<close>, to \<^verbatim>\<open>HEAD\<close> and \<^verbatim>\<open>GET\<close> alike, and
  404 for every other one; posts succeed, files can be created, and a download takes
  some time.
\<close>

definition serving :: "string \<Rightarrow> http_result \<Rightarrow> environment" where
  "serving url r =
     \<lparr>requests_head = (\<lambda>t u. if u = url then r else Response 404 NoHeader (Content [])),
      requests_get = (\<lambda>t u. if u = url then r else Response 404 NoHeader (Content [])),
      requests_post = (\<lambda>t m. Posted),
      open_fails = (\<lambda>t p. False),
      download_time_zero = (\<lambda>t. False)\<rparr>"

text \<open>The remote that has \<^verbatim>\<open>file_1.txt\<close> (status 200, 1048576 bytes) and nothing else.\<close>

definition file_1_only :: environment where
  "file_1_only =
     serving (candidate_url (scenario_config 0 2) 1 ''txt'')
       (Response 200 (HeaderInt 1048576) (Content ''data''))"

text \<open>A monitor that has already downloaded \<^verbatim>\<open>file_1.txt\<close>.\<close>

definition seen_file_1 :: FileMonitor where
  "seen_file_1 =
     \<lparr>current_index = 0, found_files = {candidate_url (scenario_config 0 2) 1 ''txt''},
      status_reporter = StatusReporter_init\<rparr>"

text \<open>The same remote, with a \<^verbatim>\<open>content-length\<close> that is not a number.\<close>

definition malformed_file_1 :: environment where
  "malformed_file_1 =
     serving (candidate_url (scenario_config 0 2) 1 ''txt'')
       (Response 200 HeaderMalformed (Content ''data''))"

text \<open>The same remote, when the clock shows no time elapsed over a download.\<close>

definition instant_file_1 :: environment where
  "instant_file_1 = file_1_only\<lparr>download_time_zero := (\<lambda>t. True)\<rparr>"

text \<open>The monitor as \<open>FileMonitor.__init__\<close> leaves it.\<close>

definition new_monitor :: FileMonitor where
  "new_monitor = \<lparr>current_index = 0, found_files = {}, status_reporter = StatusReporter_init\<rparr>"

text \<open>
  The same remote, with a body that cannot be read to its end: the download starts and
  the transport fails in the middle.
\<close>

definition broken_file_1 :: environment where
  "broken_file_1 =
     serving (candidate_url (scenario_config 0 2) 1 ''txt'')
       (Response 200 (HeaderInt 1048576) ReadError)"

text \<open>The worlds after the probe and after the failed download of that file.\<close>

definition probed_broken :: world where
  "probed_broken =
     snd (check_file_exists (scenario_config 0 2) broken_file_1
            (candidate_url (scenario_config 0 2) 1 ''txt'')
            (print_status (scenario_config 0 2) broken_file_1
               (CheckingFile (candidate_filename 1 ''txt'')) False False quiet_world))"

definition fetched_broken :: world where
  "fetched_broken =
     snd (download_file (scenario_config 0 2) broken_file_1
            (candidate_url (scenario_config 0 2) 1 ''txt'') (candidate_filename 1 ''txt'')
            (send_telegram_message (scenario_config 0 2) broken_file_1
               (NewFileFound (candidate_filename 1 ''txt'') 1048576) probed_broken))"

text \<open>The same remote, announcing a size too large for a float, and the world after its probe.\<close>

definition huge_file_1 :: environment where
  "huge_file_1 =
     serving (candidate_url (scenario_config 0 2) 1 ''txt'')
       (Response 200 (HeaderInt (10 ^ 320)) (Content ''data''))"

definition probed_huge :: world where
  "probed_huge =
     snd (check_file_exists (scenario_config 0 2) huge_file_1
            (candidate_url (scenario_config 0 2) 1 ''txt'')
            (print_status (scenario_config 0 2) huge_file_1
               (CheckingFile (candidate_filename 1 ''txt'')) False False quiet_world))"

text \<open>
  The path tried by the renaming loop of \<open>download_file\<close> at counter \<open>k\<close>:
  \<^verbatim>\<open>os.path.join(DOWNLOAD_DIR, f"{base_name}_{k}{ext}")\<close>.
\<close>

definition numbered_path :: "string \<Rightarrow> string \<Rightarrow> string \<Rightarrow> nat \<Rightarrow> string" where
  "numbered_path dir base_name ext k = os_path_join dir (base_name @ ''_'' @ str_nat k @ ext)"

text \<open>A remote that has \<^verbatim>\<open>file_5.txt\<close>, and a download directory that already holds a copy.\<close>

definition file_5_remote :: environment where
  "file_5_remote =
     serving (candidate_url (scenario_config 0 9) 5 ''txt'')
       (Response 200 (HeaderInt 3) (Content ''new''))"

definition one_copy :: world where
  "one_copy = \<lparr>events = [], files = [(''downloaded_files/file_5.txt'', ''old'')]\<rparr>"

definition two_copies :: world where
  "two_copies =
     snd (download_file (scenario_config 0 9) file_5_remote
            (candidate_url (scenario_config 0 9) 5 ''txt'') ''file_5.txt'' one_copy)"

section \<open>Properties of the status reporter\<close>

lemma update_stats_calls_from:
  "files_found (update_stats_calls cs sr) = files_found sr + sum_list (map (\<lambda>(now, f, d). f) cs)
   \<and> files_downloaded (update_stats_calls cs sr)
       = files_downloaded sr + sum_list (map (\<lambda>(now, f, d). d) cs)
   \<and> checks_performed (update_stats_calls cs sr) = checks_performed sr + int (length cs)"
proof (induction cs arbitrary: sr)
  case Nil
  show ?case by simp
next
  case (Cons c cs)
  obtain now f d where c: "c = (now, f, d)" by (cases c) auto
  show ?case
    unfolding c by (simp add: Cons.IH update_stats_def)
qed

text \<open>
  Claim C4. On a freshly constructed status reporter, any finite sequence of \<open>n\<close> calls
  \<open>update_stats(f\<^sub>i, d\<^sub>i)\<close> leaves \<open>files_found\<close> equal to the sum of the \<open>f\<^sub>i\<close>,
  \<open>files_downloaded\<close> equal to the sum of the \<open>d\<^sub>i\<close>, and \<open>checks_performed\<close> equal to \<open>n\<close>.
\<close>

theorem update_stats_accumulates:
  "files_found (update_stats_calls cs StatusReporter_init) = sum_list (map (\<lambda>(now, f, d). f) cs)
   \<and> files_downloaded (update_stats_calls cs StatusReporter_init)
       = sum_list (map (\<lambda>(now, f, d). d) cs)
   \<and> checks_performed (update_stats_calls cs StatusReporter_init) = int (length cs)"
  using update_stats_calls_from [of cs StatusReporter_init]
  by (simp add: StatusReporter_init_def)

section \<open>Properties of the notifier\<close>

lemma files_emit [simp]: "files (emit e w) = files w"
  by (simp add: emit_def)

lemma events_emit [simp]: "events (emit e w) = events w @ [e]"
  by (simp add: emit_def)

lemma files_send_telegram_message [simp]: "files (send_telegram_message cfg env msg w) = files w"
  by (simp add: send_telegram_message_def split: post_result.splits)

lemma files_print_status [simp]: "files (print_status cfg env msg e n w) = files w"
  by (simp add: print_status_def Let_def)

text \<open>
  Claim C9. With no recipient configured (\<open>CHAT_ID\<close> zero, which is also the value of an
  unset one), \<open>send_telegram_message\<close> logs one error and makes no network call. With a
  recipient, it posts the message once, and a transport failure of the post is logged as
  an error; in both cases the function returns to its caller.
\<close>

theorem send_telegram_message_events:
  "events (send_telegram_message cfg env msg w) =
     events w @
       (if CHAT_ID cfg = 0 then [LogError PleaseSetChatId]
        else if requests_post env (now w) msg = PostRequestException
          then [PostRequest msg, LogError FailedToSend]
        else [PostRequest msg])"
  by (simp add: send_telegram_message_def split: post_result.splits)

section \<open>What one candidate and one pass leave unchanged\<close>

lemma iterations_append [simp]: "iterations (es @ fs) = iterations es @ iterations fs"
  by (simp add: iterations_def)

lemma iterations_Nil [simp]: "iterations [] = []"
  by (simp add: iterations_def)

lemma iterations_Cons [simp]: "iterations (e # es) = iteration_of e @ iterations es"
  by (simp add: iterations_def)

lemma iterations_send_telegram_message [simp]:
  "iterations (events (send_telegram_message cfg env msg w)) = iterations (events w)"
  by (simp add: send_telegram_message_def split: post_result.splits)

lemma iterations_print_status [simp]:
  "iterations (events (print_status cfg env msg e n w)) = iterations (events w)"
  by (simp add: print_status_def Let_def)

lemma events_write_file [simp]: "events (write_file p c w) = events w"
  by (simp add: write_file_def)

lemma iterations_check_file_exists:
  "check_file_exists cfg env url w = (r, w') \<Longrightarrow> iterations (events w') = iterations (events w)"
  by (auto simp: check_file_exists_def split: http_result.splits if_splits sum.splits)

lemma iterations_download_file:
  "download_file cfg env url fn w = (r, w') \<Longrightarrow> iterations (events w') = iterations (events w)"
  by (auto simp: download_file_def Let_def
      split: http_result.splits if_splits sum.splits prod.splits body.splits)

lemma iterations_process_file:
  "process_file cfg env index ext m w = (r, m', w')
     \<Longrightarrow> iterations (events w') = iterations (events w)"
  by (auto simp: process_file_def Let_def
      dest!: iterations_check_file_exists iterations_download_file
      split: if_splits sum.splits prod.splits)

lemma status_reporter_process_file:
  "process_file cfg env index ext m w = (r, m', w') \<Longrightarrow> status_reporter m' = status_reporter m"
  by (auto simp: process_file_def Let_def split: if_splits sum.splits prod.splits)

lemma found_files_process_file:
  "process_file cfg env index ext m w = (r, m', w') \<Longrightarrow> found_files m \<subseteq> found_files m'"
  by (auto simp: process_file_def Let_def split: if_splits sum.splits prod.splits)

lemma process_file_result:
  "process_file cfg env index ext m w = ((f, d), m', w') \<Longrightarrow> d \<Longrightarrow> f"
  by (auto simp: process_file_def Let_def split: if_splits sum.splits prod.splits)

lemma for_preserves:
  "check_new_files_for cfg env exts (m, w, fc, dc) = (m', w', fc', dc')
     \<Longrightarrow> iterations (events w') = iterations (events w)
       \<and> status_reporter m' = status_reporter m
       \<and> found_files m \<subseteq> found_files m'
       \<and> dc \<le> dc' \<and> dc' - dc \<le> fc' - fc"
proof (induction exts arbitrary: m w fc dc)
  case Nil
  then show ?case by simp
next
  case (Cons ext exts)
  obtain f d m1 w1 where p: "process_file cfg env (current_index m) ext m w = ((f, d), m1, w1)"
    by (metis prod.exhaust)
  let ?fc1 = "if f then fc + 1 else fc"
  let ?dc1 = "if f \<and> d then dc + 1 else dc"
  from Cons.prems
  have "check_new_files_for cfg env exts (m1, w1, ?fc1, ?dc1) = (m', w', fc', dc')"
    by (simp add: p)
  then have "iterations (events w') = iterations (events w1)
       \<and> status_reporter m' = status_reporter m1
       \<and> found_files m1 \<subseteq> found_files m'
       \<and> ?dc1 \<le> dc' \<and> dc' - ?dc1 \<le> fc' - ?fc1"
    by (rule Cons.IH)
  with iterations_process_file [OF p] status_reporter_process_file [OF p]
    found_files_process_file [OF p]
  show ?case by (auto split: if_splits)
qed

lemma while_pass:
  "check_new_files_while cfg env (m, w, fc, dc) = (m', w', fc', dc')
     \<Longrightarrow> iterations (events w') = iterations (events w) @ [current_index m..END_INDEX cfg]
       \<and> current_index m' =
           (if current_index m \<le> END_INDEX cfg then START_INDEX cfg else current_index m)
       \<and> status_reporter m' = status_reporter m
       \<and> found_files m \<subseteq> found_files m'
       \<and> dc \<le> dc' \<and> dc' - dc \<le> fc' - fc"
proof (induction cfg env "(m, w, fc, dc)" arbitrary: m w fc dc
    rule: check_new_files_while.induct)
  case (1 cfg env m w fc dc)
  show ?case
  proof (cases "current_index m \<le> END_INDEX cfg")
    case False
    with "1.prems" show ?thesis
      by (simp add: check_new_files_while.simps [of cfg env m w fc dc])
  next
    case True
    obtain m1 w1 fc1 dc1 where f: "check_new_files_for cfg env (SUPPORTED_EXTENSIONS cfg)
        (m, emit (Iteration (current_index m)) w, fc, dc) = (m1, w1, fc1, dc1)"
      by (metis prod.exhaust)
    note ci = current_index_for [OF f]
    note pr = for_preserves [OF f]
    have up: "[current_index m..END_INDEX cfg]
                = current_index m # [current_index m + 1..END_INDEX cfg]"
      using True by (simp add: upto_rec1)
    show ?thesis
    proof (cases "current_index m + 1 > END_INDEX cfg")
      case last: True
      with True "1.prems" f ci pr up show ?thesis
        by (auto simp: check_new_files_while.simps [of cfg env m w fc dc] Let_def)
    next
      case more: False
      let ?m2 = "m1\<lparr>current_index := current_index m1 + 1\<rparr>"
      from True more "1.prems" f ci
      have r: "check_new_files_while cfg env (?m2, w1, fc1, dc1) = (m', w', fc', dc')"
        by (simp add: check_new_files_while.simps [of cfg env m w fc dc] Let_def)
      have "iterations (events w') = iterations (events w1) @ [current_index ?m2..END_INDEX cfg]
         \<and> current_index m' =
             (if current_index ?m2 \<le> END_INDEX cfg then START_INDEX cfg else current_index ?m2)
         \<and> status_reporter m' = status_reporter ?m2
         \<and> found_files ?m2 \<subseteq> found_files m'
         \<and> dc1 \<le> dc' \<and> dc' - dc1 \<le> fc' - fc1"
        using True more ci f
        by (intro "1.hyps" [OF True f [symmetric] refl refl refl _ r]) simp_all
      with True more ci pr up show ?thesis by auto
    qed
  qed
qed

lemma check_new_files_pass:
  assumes "check_new_files cfg env m w = (m', w')"
  shows "iterations (events w') = iterations (events w) @ [current_index m..END_INDEX cfg]"
    and "current_index m' =
           (if current_index m \<le> END_INDEX cfg then START_INDEX cfg else current_index m)"
    and "checks_performed (status_reporter m') = checks_performed (status_reporter m) + 1"
    and "reporter_current_index (status_reporter m') = current_index m'"
    and "found_files m \<subseteq> found_files m'"
    and "files_downloaded (status_reporter m) \<le> files_downloaded (status_reporter m')"
    and "files_downloaded (status_reporter m') - files_downloaded (status_reporter m)
           \<le> files_found (status_reporter m') - files_found (status_reporter m)"
proof -
  let ?w2 = "print_status cfg env (CurrentCheckIndex (current_index m)) False False
               (print_status cfg env StartingFileCheck False False w)"
  obtain m1 w1 fc dc where l: "check_new_files_while cfg env (m, ?w2, 0, 0) = (m1, w1, fc, dc)"
    by (metis prod.exhaust)
  from assms have m': "m' = m1\<lparr>status_reporter :=
        (update_stats (now w1) fc dc (status_reporter m1))
          \<lparr>reporter_current_index := current_index m1\<rparr>\<rparr>"
    and w': "w' = w1"
    by (auto simp: check_new_files_def Let_def l)
  note wp = while_pass [OF l]
  from wp show "iterations (events w') = iterations (events w) @ [current_index m..END_INDEX cfg]"
    by (simp add: w')
  from wp show "current_index m' =
           (if current_index m \<le> END_INDEX cfg then START_INDEX cfg else current_index m)"
    by (simp add: m')
  from wp show "checks_performed (status_reporter m') = checks_performed (status_reporter m) + 1"
    by (simp add: m' update_stats_def)
  show "reporter_current_index (status_reporter m') = current_index m'"
    by (simp add: m')
  from wp show "found_files m \<subseteq> found_files m'"
    by (simp add: m')
  from wp show "files_downloaded (status_reporter m) \<le> files_downloaded (status_reporter m')"
    by (simp add: m' update_stats_def)
  from wp show "files_downloaded (status_reporter m') - files_downloaded (status_reporter m)
           \<le> files_found (status_reporter m') - files_found (status_reporter m)"
    by (simp add: m' update_stats_def)
qed

section \<open>Termination and shape of a scan pass\<close>

text \<open>
  Claim C8. Every call of \<open>check_new_files\<close> returns (the function is total, its loop
  being defined with a termination proof). Started with the cursor at \<open>c\<close>, the loop body
  runs at exactly the cursor values \<open>c, c + 1, ..., END_INDEX\<close>, which are
  \<open>END_INDEX - c + 1\<close> values, and none when \<open>c > END_INDEX\<close>; nothing runs after the
  wraparound. If the body ran at all, the cursor ends at \<open>START_INDEX\<close>. In every case
  \<open>update_stats\<close> has been applied once: \<open>checks_performed\<close> is one more than before, and
  the reporter's index mirrors the cursor.
\<close>

theorem check_new_files_one_cycle:
  "(case check_new_files cfg env m w of
      (m', w') \<Rightarrow>
        iterations (events w') = iterations (events w) @ [current_index m..END_INDEX cfg]
        \<and> length [current_index m..END_INDEX cfg] = nat (END_INDEX cfg - current_index m + 1)
        \<and> current_index m' =
            (if current_index m \<le> END_INDEX cfg then START_INDEX cfg else current_index m)
        \<and> checks_performed (status_reporter m') = checks_performed (status_reporter m) + 1
        \<and> reporter_current_index (status_reporter m') = current_index m')"
proof -
  obtain m' w' where r: "check_new_files cfg env m w = (m', w')"
    by (metis prod.exhaust)
  from check_new_files_pass(1-4) [OF r] show ?thesis
    by (simp add: r)
qed

section \<open>A pass over a small range\<close>

text \<open>
  Claim C7. With \<open>START_INDEX = 0\<close>, \<open>END_INDEX = 2\<close>, the one extension \<^verbatim>\<open>txt\<close> and a
  remote that has only \<^verbatim>\<open>file_1.txt\<close> (200, 1048576 bytes), the first pass of a new
  monitor starts with the cursor at 0 and runs the loop body at 0, 1 and 2; the probes
  of indices 0 and 2 find nothing, index 1 is probed, fetched and written; the cursor
  wraps to 0; and the counters read one file found, one downloaded, one check, with the
  reporter's index at 0.
\<close>

theorem single_pass_scenario:
  "(case FileMonitor_init (scenario_config 0 2) file_1_only quiet_world of
      (m, w) \<Rightarrow>
        current_index m = 0
        \<and> (case check_new_files (scenario_config 0 2) file_1_only m w of
             (m', w') \<Rightarrow>
               iterations (events w') = [0, 1, 2]
               \<and> filter (\<lambda>e. case e of HeadRequest u \<Rightarrow> True | GetRequest u \<Rightarrow> True | _ \<Rightarrow> False)
                    (events w')
                  = [HeadRequest (candidate_url (scenario_config 0 2) 0 ''txt''),
                     HeadRequest (candidate_url (scenario_config 0 2) 1 ''txt''),
                     GetRequest (candidate_url (scenario_config 0 2) 1 ''txt''),
                     HeadRequest (candidate_url (scenario_config 0 2) 2 ''txt'')]
               \<and> current_index m' = 0
               \<and> files_found (status_reporter m') = 1
               \<and> files_downloaded (status_reporter m') = 1
               \<and> checks_performed (status_reporter m') = 1
               \<and> reporter_current_index (status_reporter m') = 0
               \<and> found_files m' = {candidate_url (scenario_config 0 2) 1 ''txt''}
               \<and> files w' = [(''downloaded_files/file_1.txt'', ''data'')]))"
  by code_simp

section \<open>The cursor and the configured range\<close>

text \<open>
  Claim C1 says that the cursor never leaves \<open>[START_INDEX, END_INDEX]\<close>, the first pass
  included. \<open>FileMonitor.__init__\<close> sets the cursor to the constant 0, not to
  \<open>START_INDEX\<close>. With the valid configuration \<open>START_INDEX = 1\<close>, \<open>END_INDEX = 2\<close>, the
  first pass of \<open>main\<close> runs the loop body at 0, 1 and 2 and probes \<^verbatim>\<open>file_0.txt\<close>, which is
  below the range; only then is the cursor reset to \<open>START_INDEX\<close>.
\<close>

theorem first_pass_starts_at_zero:
  "validate_config (scenario_config 1 2)
   \<and> (case main (scenario_config 1 2) file_1_only [] quiet_world of
        (m, w) \<Rightarrow>
          iterations (events w) = [0, 1, 2]
          \<and> HeadRequest (candidate_url (scenario_config 1 2) 0 ''txt'') \<in> set (events w)
          \<and> current_index m = 1)"
  by code_simp

text \<open>
  When the whole range is negative the cursor starts above \<open>END_INDEX\<close>: no pass ever
  runs the loop body, and the cursor stays at 0, outside the range.
\<close>

lemma negative_range_never_scanned:
  "validate_config (scenario_config (- 3) (- 1))
   \<and> (case main (scenario_config (- 3) (- 1)) file_1_only [CheckNewFiles, CheckNewFiles]
             quiet_world of
        (m, w) \<Rightarrow> iterations (events w) = [] \<and> current_index m = 0)"
  by code_simp

text \<open>
  What does hold: a pass that starts with the cursor in the range keeps it there, at
  every iteration and at its end, provided \<open>START_INDEX \<le> END_INDEX\<close>.
\<close>

lemma cursor_stays_in_range:
  assumes "check_new_files cfg env m w = (m', w')"
    and "START_INDEX cfg \<le> current_index m" and "current_index m \<le> END_INDEX cfg"
  shows "START_INDEX cfg \<le> current_index m' \<and> current_index m' \<le> END_INDEX cfg
    \<and> (\<forall>i \<in> set (drop (length (iterations (events w))) (iterations (events w'))).
          START_INDEX cfg \<le> i \<and> i \<le> END_INDEX cfg)"
  using check_new_files_pass(1,2) [OF assms(1)] assms(2,3) by auto

section \<open>The existence probe\<close>

text \<open>
  Claim C6 says that \<open>check_file_exists\<close> never raises. Its handler catches
  \<^verbatim>\<open>requests.RequestException\<close> only, and \<^verbatim>\<open>int()\<close> of the header is inside the \<^verbatim>\<open>try\<close>:
  a 200 response whose \<^verbatim>\<open>content-length\<close> is not an integer literal raises
  \<^verbatim>\<open>ValueError\<close> out of the function.
\<close>

theorem check_file_exists_raises:
  "fst (check_file_exists (scenario_config 0 2)
          (serving ''u'' (Response 200 HeaderMalformed (Content []))) ''u'' quiet_world)
     = Inl ValueError"
  by code_simp

text \<open>
  Claim C6, amended. For every URL the probe makes one \<^verbatim>\<open>HEAD\<close> request. On status 200
  it returns \<open>(True, s)\<close>, where \<open>s\<close> is the \<^verbatim>\<open>content-length\<close> when that header is an
  integer and 0 when it is absent, and raises \<^verbatim>\<open>ValueError\<close> when the header is anything
  else. On any other status it returns \<open>(False, 0)\<close>. On a transport failure it logs the
  error, notifies the operator if one is configured, and returns \<open>(False, 0)\<close>.
\<close>

theorem check_file_exists_result:
  "fst (check_file_exists cfg env url w) =
     (case requests_head env (now w) url of
        RequestException \<Rightarrow> Inr (False, 0)
      | Response status_code hdr b \<Rightarrow>
          if status_code = 200 then
            (case hdr of
               NoHeader \<Rightarrow> Inr (True, 0)
             | HeaderInt n \<Rightarrow> Inr (True, n)
             | HeaderMalformed \<Rightarrow> Inl ValueError)
          else Inr (False, 0))
   \<and> events (snd (check_file_exists cfg env url w)) =
       events w @ HeadRequest url #
         (case requests_head env (now w) url of
            RequestException \<Rightarrow>
              LogError ErrorCheckingExistence #
                (if CHAT_ID cfg = 0 then []
                 else if requests_post env (now w + 2) ErrorCheckingExistence
                           = PostRequestException
                   then [PostRequest ErrorCheckingExistence, LogError FailedToSend]
                 else [PostRequest ErrorCheckingExistence])
          | Response status_code hdr b \<Rightarrow> [])"
  by (auto simp: check_file_exists_def print_status_def send_telegram_message_def now_def
      Let_def split: http_result.splits cl_header.splits post_result.splits)

section \<open>The seen-set\<close>

lemma run_pending_preserves:
  "run_pending cfg env js (m, w) = (m', w')
     \<Longrightarrow> found_files m \<subseteq> found_files m'
       \<and> (0 \<le> files_downloaded (status_reporter m)
            \<and> files_downloaded (status_reporter m) \<le> files_found (status_reporter m)
          \<longrightarrow> 0 \<le> files_downloaded (status_reporter m')
            \<and> files_downloaded (status_reporter m') \<le> files_found (status_reporter m'))"
proof (induction js arbitrary: m w)
  case Nil
  then show ?case by simp
next
  case (Cons j js)
  show ?case
  proof (cases j)
    case CheckNewFiles
    obtain m1 w1 where c: "check_new_files cfg env m w = (m1, w1)"
      by (metis prod.exhaust)
    from Cons.prems have "run_pending cfg env js (m1, w1) = (m', w')"
      by (simp add: CheckNewFiles c)
    from Cons.IH [OF this] check_new_files_pass(5-7) [OF c] show ?thesis
      by auto
  next
    case SendStatusReport
    with Cons.prems have "run_pending cfg env js (m, send_status_report cfg env m w) = (m', w')"
      by simp
    from Cons.IH [OF this] show ?thesis .
  qed
qed

text \<open>
  Claim C2. When the URL of a candidate is in the seen-set, \<open>process_file\<close> returns
  \<open>(False, False)\<close> at once: the monitor and the world are unchanged, so there is no
  probe, no download and no log line. The seen-set only grows, so after any further
  scheduled jobs the URL is still in it and the candidate is still skipped.
\<close>

theorem seen_url_is_skipped:
  assumes "candidate_url cfg index ext \<in> found_files m"
  shows "process_file cfg env index ext m w = ((False, False), m, w)
     \<and> (case run_pending cfg env js (m, w) of
          (m', w') \<Rightarrow>
            candidate_url cfg index ext \<in> found_files m'
            \<and> process_file cfg env index ext m' later = ((False, False), m', later))"
proof -
  obtain m' w' where r: "run_pending cfg env js (m, w) = (m', w')"
    by (metis prod.exhaust)
  from run_pending_preserves [OF r] assms
  have in': "candidate_url cfg index ext \<in> found_files m'" by auto
  have skip: "\<And>m w. candidate_url cfg index ext \<in> found_files m
      \<Longrightarrow> process_file cfg env index ext m w = ((False, False), m, w)"
    by (simp add: process_file_def Let_def)
  from skip [OF assms] skip [OF in'] in' show ?thesis
    by (simp add: r)
qed

theorem seen_url_is_skipped_witness:
  "candidate_url (scenario_config 0 2) 1 ''txt'' \<in> found_files seen_file_1
   \<and> process_file (scenario_config 0 2) file_1_only 1 ''txt'' seen_file_1 quiet_world
       = ((False, False), seen_file_1, quiet_world)
   \<and> (case run_pending (scenario_config 0 2) file_1_only [CheckNewFiles, SendStatusReport]
             (seen_file_1, quiet_world) of
        (m', w') \<Rightarrow>
          candidate_url (scenario_config 0 2) 1 ''txt'' \<in> found_files m'
          \<and> process_file (scenario_config 0 2) file_1_only 1 ''txt'' m' quiet_world
              = ((False, False), m', quiet_world))"
proof -
  have h: "candidate_url (scenario_config 0 2) 1 ''txt'' \<in> found_files seen_file_1"
    by (simp add: seen_file_1_def)
  from seen_url_is_skipped [OF h, where env = file_1_only and w = quiet_world
      and js = "[CheckNewFiles, SendStatusReport]" and later = quiet_world] h
  show ?thesis by simp
qed

section \<open>Found and downloaded counts\<close>

text \<open>
  Claim C10. \<open>process_file\<close> never returns \<open>(False, True)\<close>. Every exception inside its
  \<^verbatim>\<open>try\<close> block ends in \<open>(False, False)\<close>: one raised by the probe, one raised by the
  download after a successful probe, and the \<^verbatim>\<open>OverflowError\<close> of its own conversion of the
  size to megabytes, which comes before the alert and the download, so that neither
  happens. So the downloaded count of a pass is between 0 and its found count, and after
  the first pass of \<open>main\<close> and any further scheduled jobs the cumulative counters
  satisfy \<open>0 \<le> files_downloaded \<le> files_found\<close>.
\<close>

theorem downloaded_only_if_found:
  "fst (process_file cfg env index ext m w) \<noteq> (False, True)
   \<and> (fst (check_file_exists cfg env (candidate_url cfg index ext)
             (print_status cfg env (CheckingFile (candidate_filename index ext)) False False w))
        = Inl e
      \<longrightarrow> fst (process_file cfg env index ext m w) = (False, False))
   \<and> (check_file_exists cfg env (candidate_url cfg index ext)
         (print_status cfg env (CheckingFile (candidate_filename index ext)) False False w)
        = (Inr (True, sz), probed)
      \<and> fst (download_file cfg env (candidate_url cfg index ext) (candidate_filename index ext)
               (send_telegram_message cfg env (NewFileFound (candidate_filename index ext) sz) probed))
          = Inl e'
      \<longrightarrow> fst (process_file cfg env index ext m w) = (False, False))
   \<and> (candidate_url cfg index ext \<notin> found_files m
      \<and> check_file_exists cfg env (candidate_url cfg index ext)
         (print_status cfg env (CheckingFile (candidate_filename index ext)) False False w)
        = (Inr (True, big), probed')
      \<and> megabytes_overflow big
      \<longrightarrow> process_file cfg env index ext m w
          = ((False, False), m,
             print_status cfg env (ErrorProcessing (candidate_filename index ext) OverflowError)
               True True probed'))
   \<and> (case check_new_files_while cfg env (m, w, 0, 0) of
        (m', w', found_count, downloaded_count) \<Rightarrow>
          0 \<le> downloaded_count \<and> downloaded_count \<le> found_count)
   \<and> (case main cfg env js w of
        (m', w') \<Rightarrow>
          0 \<le> files_downloaded (status_reporter m')
          \<and> files_downloaded (status_reporter m') \<le> files_found (status_reporter m'))"
proof -
  have a: "fst (process_file cfg env index ext m w) \<noteq> (False, True)"
  proof -
    obtain f d m' w' where p: "process_file cfg env index ext m w = ((f, d), m', w')"
      by (metis prod.exhaust)
    from process_file_result [OF p] show ?thesis by (auto simp: p)
  qed
  have b: "fst (check_file_exists cfg env (candidate_url cfg index ext)
             (print_status cfg env (CheckingFile (candidate_filename index ext)) False False w))
        = Inl e
      \<longrightarrow> fst (process_file cfg env index ext m w) = (False, False)"
    by (auto simp: process_file_def Let_def split: prod.splits sum.splits)
  have c: "check_file_exists cfg env (candidate_url cfg index ext)
         (print_status cfg env (CheckingFile (candidate_filename index ext)) False False w)
        = (Inr (True, sz), probed)
      \<and> fst (download_file cfg env (candidate_url cfg index ext) (candidate_filename index ext)
               (send_telegram_message cfg env (NewFileFound (candidate_filename index ext) sz) probed))
          = Inl e'
      \<longrightarrow> fst (process_file cfg env index ext m w) = (False, False)"
    by (auto simp: process_file_def Let_def split: prod.splits sum.splits)
  have o: "candidate_url cfg index ext \<notin> found_files m
      \<and> check_file_exists cfg env (candidate_url cfg index ext)
         (print_status cfg env (CheckingFile (candidate_filename index ext)) False False w)
        = (Inr (True, big), probed')
      \<and> megabytes_overflow big
      \<longrightarrow> process_file cfg env index ext m w
          = ((False, False), m,
             print_status cfg env (ErrorProcessing (candidate_filename index ext) OverflowError)
               True True probed')"
    by (simp add: process_file_def Let_def)
  have d: "case check_new_files_while cfg env (m, w, 0, 0) of
        (m', w', found_count, downloaded_count) \<Rightarrow>
          0 \<le> downloaded_count \<and> downloaded_count \<le> found_count"
  proof -
    obtain m' w' fc dc where l: "check_new_files_while cfg env (m, w, 0, 0) = (m', w', fc, dc)"
      by (metis prod.exhaust)
    from while_pass [OF l] show ?thesis by (simp add: l)
  qed
  have e: "case main cfg env js w of
        (m', w') \<Rightarrow>
          0 \<le> files_downloaded (status_reporter m')
          \<and> files_downloaded (status_reporter m') \<le> files_found (status_reporter m')"
  proof -
    obtain m0 w0 where i: "FileMonitor_init cfg env w = (m0, w0)"
      by (metis prod.exhaust)
    obtain m1 w1 where c1: "check_new_files cfg env m0 w0 = (m1, w1)"
      by (metis prod.exhaust)
    obtain m2 w2 where r: "run_pending cfg env js (m1, w1) = (m2, w2)"
      by (metis prod.exhaust)
    from i have z: "files_downloaded (status_reporter m0) = 0"
      "files_found (status_reporter m0) = 0"
      by (auto simp: FileMonitor_init_def StatusReporter_init_def)
    from check_new_files_pass(6,7) [OF c1] z
    have "0 \<le> files_downloaded (status_reporter m1)
          \<and> files_downloaded (status_reporter m1) \<le> files_found (status_reporter m1)"
      by simp
    with run_pending_preserves [OF r] show ?thesis
      by (simp add: main_def i c1 r)
  qed
  from a b c o d e show ?thesis by (intro conjI) assumption+
qed

theorem downloaded_only_if_found_witness:
  "fst (check_file_exists (scenario_config 0 2) malformed_file_1
          (candidate_url (scenario_config 0 2) 1 ''txt'')
          (print_status (scenario_config 0 2) malformed_file_1
             (CheckingFile (candidate_filename 1 ''txt'')) False False quiet_world))
     = Inl ValueError
   \<and> fst (process_file (scenario_config 0 2) malformed_file_1 1 ''txt'' new_monitor
            quiet_world) = (False, False)
   \<and> check_file_exists (scenario_config 0 2) instant_file_1
          (candidate_url (scenario_config 0 2) 1 ''txt'')
          (print_status (scenario_config 0 2) instant_file_1
             (CheckingFile (candidate_filename 1 ''txt'')) False False quiet_world)
       = (Inr (True, 1048576),
          snd (check_file_exists (scenario_config 0 2) instant_file_1
                 (candidate_url (scenario_config 0 2) 1 ''txt'')
                 (print_status (scenario_config 0 2) instant_file_1
                    (CheckingFile (candidate_filename 1 ''txt'')) False False quiet_world)))
   \<and> fst (download_file (scenario_config 0 2) instant_file_1
            (candidate_url (scenario_config 0 2) 1 ''txt'') (candidate_filename 1 ''txt'')
            (send_telegram_message (scenario_config 0 2) instant_file_1
               (NewFileFound (candidate_filename 1 ''txt'') 1048576)
               (snd (check_file_exists (scenario_config 0 2) instant_file_1
                 (candidate_url (scenario_config 0 2) 1 ''txt'')
                 (print_status (scenario_config 0 2) instant_file_1
                    (CheckingFile (candidate_filename 1 ''txt'')) False False quiet_world)))))
       = Inl ZeroDivisionError
   \<and> fst (process_file (scenario_config 0 2) instant_file_1 1 ''txt'' new_monitor
            quiet_world) = (False, False)
   \<and> candidate_url (scenario_config 0 2) 1 ''txt'' \<notin> found_files new_monitor
   \<and> check_file_exists (scenario_config 0 2) huge_file_1
         (candidate_url (scenario_config 0 2) 1 ''txt'')
         (print_status (scenario_config 0 2) huge_file_1
            (CheckingFile (candidate_filename 1 ''txt'')) False False quiet_world)
       = (Inr (True, 10 ^ 320), probed_huge)
   \<and> megabytes_overflow (10 ^ 320)
   \<and> process_file (scenario_config 0 2) huge_file_1 1 ''txt'' new_monitor quiet_world
       = ((False, False), new_monitor,
          print_status (scenario_config 0 2) huge_file_1
            (ErrorProcessing (candidate_filename 1 ''txt'') OverflowError) True True probed_huge)
   \<and> (case main (scenario_config 0 2) file_1_only [CheckNewFiles] quiet_world of
        (m', w') \<Rightarrow>
          0 \<le> files_downloaded (status_reporter m')
          \<and> files_downloaded (status_reporter m') \<le> files_found (status_reporter m'))"
proof -
  have h4: "candidate_url (scenario_config 0 2) 1 ''txt'' \<notin> found_files new_monitor"
    by (simp add: new_monitor_def)
  have h5: "check_file_exists (scenario_config 0 2) huge_file_1
         (candidate_url (scenario_config 0 2) 1 ''txt'')
         (print_status (scenario_config 0 2) huge_file_1
            (CheckingFile (candidate_filename 1 ''txt'')) False False quiet_world)
       = (Inr (True, 10 ^ 320), probed_huge)"
    by code_simp
  have h6: "megabytes_overflow (10 ^ 320)"
    by code_simp
  from downloaded_only_if_found [where cfg = "scenario_config 0 2" and env = huge_file_1
      and index = 1 and ext = "''txt''" and m = new_monitor and w = quiet_world
      and big = "10 ^ 320" and probed' = probed_huge] h4 h5 h6
  have r4: "process_file (scenario_config 0 2) huge_file_1 1 ''txt'' new_monitor quiet_world
       = ((False, False), new_monitor,
          print_status (scenario_config 0 2) huge_file_1
            (ErrorProcessing (candidate_filename 1 ''txt'') OverflowError) True True probed_huge)"
    by blast
  have h1: "fst (check_file_exists (scenario_config 0 2) malformed_file_1
          (candidate_url (scenario_config 0 2) 1 ''txt'')
          (print_status (scenario_config 0 2) malformed_file_1
             (CheckingFile (candidate_filename 1 ''txt'')) False False quiet_world))
     = Inl ValueError"
    by code_simp
  have h2: "check_file_exists (scenario_config 0 2) instant_file_1
          (candidate_url (scenario_config 0 2) 1 ''txt'')
          (print_status (scenario_config 0 2) instant_file_1
             (CheckingFile (candidate_filename 1 ''txt'')) False False quiet_world)
       = (Inr (True, 1048576),
          snd (check_file_exists (scenario_config 0 2) instant_file_1
                 (candidate_url (scenario_config 0 2) 1 ''txt'')
                 (print_status (scenario_config 0 2) instant_file_1
                    (CheckingFile (candidate_filename 1 ''txt'')) False False quiet_world)))"
    by code_simp
  have h3: "fst (download_file (scenario_config 0 2) instant_file_1
            (candidate_url (scenario_config 0 2) 1 ''txt'') (candidate_filename 1 ''txt'')
            (send_telegram_message (scenario_config 0 2) instant_file_1
               (NewFileFound (candidate_filename 1 ''txt'') 1048576)
               (snd (check_file_exists (scenario_config 0 2) instant_file_1
                 (candidate_url (scenario_config 0 2) 1 ''txt'')
                 (print_status (scenario_config 0 2) instant_file_1
                    (CheckingFile (candidate_filename 1 ''txt'')) False False quiet_world)))))
       = Inl ZeroDivisionError"
    by code_simp
  from downloaded_only_if_found [where cfg = "scenario_config 0 2" and env = malformed_file_1
      and index = 1 and ext = "''txt''" and m = new_monitor and w = quiet_world
      and e = ValueError] h1
  have r1: "fst (process_file (scenario_config 0 2) malformed_file_1 1 ''txt'' new_monitor
            quiet_world) = (False, False)"
    by blast
  from downloaded_only_if_found [where cfg = "scenario_config 0 2" and env = instant_file_1
      and index = 1 and ext = "''txt''" and m = new_monitor and w = quiet_world
      and sz = 1048576 and e' = ZeroDivisionError
      and probed = "snd (check_file_exists (scenario_config 0 2) instant_file_1
                 (candidate_url (scenario_config 0 2) 1 ''txt'')
                 (print_status (scenario_config 0 2) instant_file_1
                    (CheckingFile (candidate_filename 1 ''txt'')) False False quiet_world))"] h2 h3
  have r2: "fst (process_file (scenario_config 0 2) instant_file_1 1 ''txt'' new_monitor
            quiet_world) = (False, False)"
    by blast
  from downloaded_only_if_found [where cfg = "scenario_config 0 2" and env = file_1_only
      and js = "[CheckNewFiles]" and w = quiet_world and index = 1 and ext = "''txt''"
      and m = new_monitor and e = ValueError and e' = ValueError and sz = 0
      and probed = quiet_world and big = 0 and probed' = quiet_world]
  have r3: "case main (scenario_config 0 2) file_1_only [CheckNewFiles] quiet_world of
        (m', w') \<Rightarrow>
          0 \<le> files_downloaded (status_reporter m')
          \<and> files_downloaded (status_reporter m') \<le> files_found (status_reporter m')"
    by (elim conjE) assumption
  show ?thesis
    using h1 r1 h2 h3 r2 h4 h5 h6 r4 r3 by (intro conjI) assumption+
qed

section \<open>A failed download\<close>

text \<open>The event log only grows, and an unseen candidate always adds a probe to it.\<close>

lemma extends_refl: "\<exists>es. events w = events w @ es"
  by simp

lemma extends_emit:
  "\<exists>es. events w1 = events w @ es \<Longrightarrow> \<exists>es. events (emit e w1) = events w @ es"
  by auto

lemma extends_write_file:
  "\<exists>es. events w1 = events w @ es \<Longrightarrow> \<exists>es. events (write_file p c w1) = events w @ es"
  by auto

lemma extends_send_telegram_message:
  "\<exists>es. events w1 = events w @ es
     \<Longrightarrow> \<exists>es. events (send_telegram_message cfg env msg w1) = events w @ es"
  by (auto simp: send_telegram_message_def split: post_result.splits)

lemma extends_print_status:
  "\<exists>es. events w1 = events w @ es
     \<Longrightarrow> \<exists>es. events (print_status cfg env msg e n w1) = events w @ es"
  by (auto simp: print_status_def Let_def intro!: extends_send_telegram_message)

lemma extends_download_file:
  assumes "\<exists>es. events w1 = events w @ es"
  shows "\<exists>es. events (snd (download_file cfg env url fn w1)) = events w @ es"
proof -
  note step = extends_emit extends_write_file extends_print_status
  have "\<exists>es. events w' = events w @ es" if "download_file cfg env url fn w1 = (r, w')" for r w'
    using that assms
    by (auto simp only: download_file_def Let_def
        split: http_result.splits if_splits sum.splits prod.splits body.splits
        intro!: step)
  then show ?thesis by (metis prod.collapse)
qed

lemma appends_emit:
  "\<exists>es. events w1 = events w @ es \<and> x \<in> set es
     \<Longrightarrow> \<exists>es. events (emit e w1) = events w @ es \<and> x \<in> set es"
  by auto

lemma appends_send_telegram_message:
  "\<exists>es. events w1 = events w @ es \<and> x \<in> set es
     \<Longrightarrow> \<exists>es. events (send_telegram_message cfg env msg w1) = events w @ es \<and> x \<in> set es"
  by (auto simp: send_telegram_message_def split: post_result.splits)

lemma appends_print_status:
  "\<exists>es. events w1 = events w @ es \<and> x \<in> set es
     \<Longrightarrow> \<exists>es. events (print_status cfg env msg e n w1) = events w @ es \<and> x \<in> set es"
  by (auto simp: print_status_def Let_def intro!: appends_send_telegram_message)

lemma appends_download_file:
  assumes "\<exists>es. events w1 = events w @ es \<and> x \<in> set es"
  shows "\<exists>es. events (snd (download_file cfg env url fn w1)) = events w @ es \<and> x \<in> set es"
proof -
  from assms obtain es where es: "events w1 = events w @ es" "x \<in> set es" by blast
  have "\<exists>fs. events (snd (download_file cfg env url fn w1)) = events w1 @ fs"
    by (rule extends_download_file) (rule extends_refl)
  then obtain fs where "events (snd (download_file cfg env url fn w1)) = events w1 @ fs"
    by blast
  with es have "events (snd (download_file cfg env url fn w1)) = events w @ (es @ fs)
      \<and> x \<in> set (es @ fs)"
    by simp
  then show ?thesis by blast
qed

lemma appends_check_file_exists:
  assumes "\<exists>es. events w1 = events w @ es"
  shows "\<exists>es. events (snd (check_file_exists cfg env url w1)) = events w @ es
           \<and> HeadRequest url \<in> set es"
proof -
  from assms obtain es where es: "events w1 = events w @ es" by blast
  have base: "\<exists>fs. events (emit (HeadRequest url) w1) = events w @ fs \<and> HeadRequest url \<in> set fs"
    using es by simp
  show ?thesis
    using base appends_print_status [OF base]
    by (auto simp: check_file_exists_def split: http_result.splits sum.splits)
qed

lemma process_file_probes:
  assumes "candidate_url cfg index ext \<notin> found_files m"
  shows "\<exists>es. events (snd (snd (process_file cfg env index ext m w))) = events w @ es
           \<and> HeadRequest (candidate_url cfg index ext) \<in> set es"
proof -
  let ?url = "candidate_url cfg index ext"
  let ?fn = "candidate_filename index ext"
  let ?w1 = "print_status cfg env (CheckingFile ?fn) False False w"
  obtain r w2 where c: "check_file_exists cfg env ?url ?w1 = (r, w2)"
    by (metis prod.exhaust)
  have "\<exists>es. events ?w1 = events w @ es"
    by (rule extends_print_status) (rule extends_refl)
  then have "\<exists>es. events (snd (check_file_exists cfg env ?url ?w1)) = events w @ es
      \<and> HeadRequest ?url \<in> set es"
    by (rule appends_check_file_exists)
  then have h: "\<exists>es. events w2 = events w @ es \<and> HeadRequest ?url \<in> set es"
    by (simp add: c)
  have d: "\<exists>es. events w4 = events w @ es \<and> HeadRequest ?url \<in> set es"
    if "download_file cfg env ?url ?fn (send_telegram_message cfg env msg w2) = (r', w4)"
    for msg r' w4
  proof -
    from h have "\<exists>es. events (send_telegram_message cfg env msg w2) = events w @ es
        \<and> HeadRequest ?url \<in> set es"
      by (rule appends_send_telegram_message)
    then have "\<exists>es. events (snd (download_file cfg env ?url ?fn
                 (send_telegram_message cfg env msg w2))) = events w @ es
        \<and> HeadRequest ?url \<in> set es"
      by (rule appends_download_file)
    with that show ?thesis by simp
  qed
  have p: "\<exists>es'. events (print_status cfg env msg e n w') = events w @ es'
             \<and> HeadRequest ?url \<in> set es'"
    if "events w' = events w @ es" "HeadRequest ?url \<in> set es" for msg e n w' es
    by (rule appends_print_status) (use that in blast)
  obtain res m' w' where r: "process_file cfg env index ext m w = (res, m', w')"
    by (metis prod.exhaust)
  have "\<exists>es. events w' = events w @ es \<and> HeadRequest ?url \<in> set es"
  proof (cases r)
    case (Inl e)
    with r assms c have "w' = print_status cfg env (ErrorProcessing ?fn e) True True w2"
      by (simp add: process_file_def Let_def)
    with h p show ?thesis by blast
  next
    case (Inr found)
    obtain exists file_size where f: "found = (exists, file_size)"
      by (metis prod.exhaust)
    show ?thesis
    proof (cases "exists \<and> \<not> megabytes_overflow file_size")
      case False
      with r assms c Inr f
      have "w' = w2 \<or> w' = print_status cfg env (ErrorProcessing ?fn OverflowError) True True w2"
        by (auto simp: process_file_def Let_def split: if_splits)
      with h p show ?thesis by blast
    next
      case True
      obtain r' w4 where dl: "download_file cfg env ?url ?fn
          (send_telegram_message cfg env (NewFileFound ?fn file_size) w2) = (r', w4)"
        by (metis prod.exhaust)
      note d4 = d [OF dl]
      from r assms c Inr f True dl
      have "w' = w4 \<or> (\<exists>e. w' = print_status cfg env (ErrorProcessing ?fn e) True True w4)"
        by (auto simp: process_file_def Let_def split: sum.splits if_splits)
      with d4 p show ?thesis by blast
    qed
  qed
  then show ?thesis by (simp add: r)
qed

text \<open>
  Claim C3. For a candidate that is not in the seen-set, whose probe says it exists with
  a size that the conversion to megabytes accepts (so that the download is attempted),
  and whose download returns failure, \<open>process_file\<close> returns \<open>(True, False)\<close> and leaves
  the monitor, and so the seen-set, as it was; a later call for the same candidate makes
  a new probe. In general the seen-set after \<open>process_file\<close> is the one before, with the
  URL added exactly when the result is \<open>(True, True)\<close>, which happens exactly when the URL
  was not seen, the probe found it, the size was accepted and the download returned
  success.
\<close>

theorem failed_download_stays_unseen:
  assumes "candidate_url cfg index ext \<notin> found_files m"
    and "check_file_exists cfg env (candidate_url cfg index ext)
           (print_status cfg env (CheckingFile (candidate_filename index ext)) False False w)
         = (Inr (True, sz), probed)"
    and "\<not> megabytes_overflow sz"
    and "download_file cfg env (candidate_url cfg index ext) (candidate_filename index ext)
           (send_telegram_message cfg env (NewFileFound (candidate_filename index ext) sz) probed)
         = (Inr False, fetched)"
  shows "process_file cfg env index ext m w = ((True, False), m, fetched)
     \<and> (\<exists>es. events (snd (snd (process_file cfg env index ext m later))) = events later @ es
             \<and> HeadRequest (candidate_url cfg index ext) \<in> set es)
     \<and> (case process_file cfg env index ext mon wld of
          (r, m1, w1) \<Rightarrow>
            found_files m1 =
              (if r = (True, True) then insert (candidate_url cfg index ext) (found_files mon)
               else found_files mon)
            \<and> (r = (True, True)) =
                (candidate_url cfg index ext \<notin> found_files mon
                 \<and> (case check_file_exists cfg env (candidate_url cfg index ext)
                            (print_status cfg env (CheckingFile (candidate_filename index ext))
                               False False wld) of
                       (Inr (True, sz0), probed0) \<Rightarrow>
                         \<not> megabytes_overflow sz0
                         \<and> fst (download_file cfg env (candidate_url cfg index ext)
                                  (candidate_filename index ext)
                                  (send_telegram_message cfg env
                                     (NewFileFound (candidate_filename index ext) sz0) probed0))
                             = Inr True
                     | _ \<Rightarrow> False)))"
proof -
  from assms have a: "process_file cfg env index ext m w = ((True, False), m, fetched)"
    by (simp add: process_file_def Let_def)
  have b: "\<exists>es. events (snd (snd (process_file cfg env index ext m later))) = events later @ es
             \<and> HeadRequest (candidate_url cfg index ext) \<in> set es"
    using assms(1) by (rule process_file_probes)
  have c: "case process_file cfg env index ext mon wld of
          (r, m1, w1) \<Rightarrow>
            found_files m1 =
              (if r = (True, True) then insert (candidate_url cfg index ext) (found_files mon)
               else found_files mon)
            \<and> (r = (True, True)) =
                (candidate_url cfg index ext \<notin> found_files mon
                 \<and> (case check_file_exists cfg env (candidate_url cfg index ext)
                            (print_status cfg env (CheckingFile (candidate_filename index ext))
                               False False wld) of
                       (Inr (True, sz0), probed0) \<Rightarrow>
                         \<not> megabytes_overflow sz0
                         \<and> fst (download_file cfg env (candidate_url cfg index ext)
                                  (candidate_filename index ext)
                                  (send_telegram_message cfg env
                                     (NewFileFound (candidate_filename index ext) sz0) probed0))
                             = Inr True
                     | _ \<Rightarrow> False))"
    by (auto simp: process_file_def Let_def split: sum.splits prod.splits bool.splits)
  from a b c show ?thesis by (intro conjI) assumption+
qed

theorem failed_download_stays_unseen_witness:
  "candidate_url (scenario_config 0 2) 1 ''txt'' \<notin> found_files new_monitor
   \<and> check_file_exists (scenario_config 0 2) broken_file_1
         (candidate_url (scenario_config 0 2) 1 ''txt'')
         (print_status (scenario_config 0 2) broken_file_1
            (CheckingFile (candidate_filename 1 ''txt'')) False False quiet_world)
       = (Inr (True, 1048576), probed_broken)
   \<and> \<not> megabytes_overflow 1048576
   \<and> download_file (scenario_config 0 2) broken_file_1
         (candidate_url (scenario_config 0 2) 1 ''txt'') (candidate_filename 1 ''txt'')
         (send_telegram_message (scenario_config 0 2) broken_file_1
            (NewFileFound (candidate_filename 1 ''txt'') 1048576) probed_broken)
       = (Inr False, fetched_broken)
   \<and> process_file (scenario_config 0 2) broken_file_1 1 ''txt'' new_monitor quiet_world
       = ((True, False), new_monitor, fetched_broken)
   \<and> (\<exists>es. events (snd (snd (process_file (scenario_config 0 2) broken_file_1 1 ''txt''
                                 new_monitor fetched_broken)))
             = events fetched_broken @ es
           \<and> HeadRequest (candidate_url (scenario_config 0 2) 1 ''txt'') \<in> set es)"
proof -
  have h1: "candidate_url (scenario_config 0 2) 1 ''txt'' \<notin> found_files new_monitor"
    by (simp add: new_monitor_def)
  have h2: "check_file_exists (scenario_config 0 2) broken_file_1
         (candidate_url (scenario_config 0 2) 1 ''txt'')
         (print_status (scenario_config 0 2) broken_file_1
            (CheckingFile (candidate_filename 1 ''txt'')) False False quiet_world)
       = (Inr (True, 1048576), probed_broken)"
    by code_simp
  have h3: "\<not> megabytes_overflow 1048576"
    by code_simp
  have h4: "download_file (scenario_config 0 2) broken_file_1
         (candidate_url (scenario_config 0 2) 1 ''txt'') (candidate_filename 1 ''txt'')
         (send_telegram_message (scenario_config 0 2) broken_file_1
            (NewFileFound (candidate_filename 1 ''txt'') 1048576) probed_broken)
       = (Inr False, fetched_broken)"
    by code_simp
  note t = failed_download_stays_unseen [OF h1 h2 h3 h4, where later = fetched_broken
      and mon = new_monitor and wld = quiet_world]
  show ?thesis
    using h1 h2 h3 h4 t [THEN conjunct1] t [THEN conjunct2, THEN conjunct1]
    by (intro conjI) assumption+
qed

section \<open>Filename collisions\<close>

text \<open>
  The renaming loop of \<open>download_file\<close> returns a path that does not exist. When the
  requested target is free it is the target itself; otherwise it is the numbered path with the
  least counter, counting from 1, whose path does not exist.
\<close>

lemma download_file_while_result:
  "download_file_while fs dir base_name ext final_path counter = (p, c)
     \<Longrightarrow> \<not> os_path_exists fs p
       \<and> (if os_path_exists fs final_path
           then counter < c \<and> p = numbered_path dir base_name ext (c - 1)
                \<and> (\<forall>k. counter \<le> k \<and> k < c - 1
                      \<longrightarrow> os_path_exists fs (numbered_path dir base_name ext k))
           else c = counter \<and> p = final_path)"
proof (induction fs dir base_name ext final_path counter rule: download_file_while.induct)
  case (1 fs dir base_name ext final_path counter)
  show ?case
  proof (cases "os_path_exists fs final_path")
    case False
    with "1.prems" show ?thesis
      by (simp add: download_file_while.simps [of fs dir base_name ext final_path counter])
  next
    case True
    let ?next = "os_path_join dir (base_name @ ''_'' @ str_nat counter @ ext)"
    from True "1.prems"
    have r: "download_file_while fs dir base_name ext ?next (counter + 1) = (p, c)"
      by (simp add: download_file_while.simps [of fs dir base_name ext final_path counter])
    note ih = "1.IH" [OF True r]
    show ?thesis
    proof (cases "os_path_exists fs ?next")
      case False
      with ih True show ?thesis by (auto simp: numbered_path_def)
    next
      case nx: True
      from ih nx
      have ih': "\<not> os_path_exists fs p \<and> counter + 1 < c
          \<and> p = numbered_path dir base_name ext (c - 1)
          \<and> (\<forall>k. counter + 1 \<le> k \<and> k < c - 1
                      \<longrightarrow> os_path_exists fs (numbered_path dir base_name ext k))"
        by auto
      from ih' have f: "\<not> os_path_exists fs p" by (rule conjunct1)
      from ih' have c: "counter + 1 < c" by blast
      from ih' have p: "p = numbered_path dir base_name ext (c - 1)" by blast
      from ih' have a: "\<forall>k. counter + 1 \<le> k \<and> k < c - 1
                      \<longrightarrow> os_path_exists fs (numbered_path dir base_name ext k)"
        by blast
      have "os_path_exists fs (numbered_path dir base_name ext k)"
        if "counter \<le> k \<and> k < c - 1" for k
      proof (cases "k = counter")
        case True
        with nx show ?thesis by (simp add: numbered_path_def)
      next
        case False
        with that a show ?thesis by simp
      qed
      with True c p f show ?thesis by simp
    qed
  qed
qed

lemma map_of_filter_other:
  "q \<noteq> p \<Longrightarrow> map_of (filter (\<lambda>(k, _). k \<noteq> p) xs) q = map_of xs q"
  by (induction xs) auto

lemma download_file_files:
  assumes "download_file cfg env url filename w = (r, w')"
    and "os_path_splitext filename = (base_name, ext)"
    and "download_file_while (files w) (DOWNLOAD_DIR cfg) base_name ext
           (os_path_join (DOWNLOAD_DIR cfg) filename) 1 = (p, c)"
  shows "(files w' = files w \<and> r \<noteq> Inr True)
     \<or> (\<exists>content. files w' = (p, content) # filter (\<lambda>(q, _). q \<noteq> p) (files w))"
  using assms
  by (auto simp: download_file_def Let_def write_file_def
      split: http_result.splits if_splits sum.splits body.splits)

text \<open>
  Claim C5. When the requested target filename already exists in the download directory, the
  downloader appends \<^verbatim>\<open>_1\<close>, \<^verbatim>\<open>_2\<close>, ... before the extension and takes the
  first suffix whose path does not exist; it never overwrites an existing file. Whatever the
  outcome of \<open>download_file\<close>, every path that existed before keeps its content, the only
  path that can be new is the one chosen by the renaming loop, that path did not exist before,
  and it exists after a successful download. If the target \<^verbatim>\<open>DOWNLOAD_DIR/filename\<close> was free
  the chosen path is the target; otherwise it is the numbered path with counter \<open>c - 1\<close>,
  where every numbered path with a counter from 1 below \<open>c - 1\<close> exists.
\<close>

theorem download_never_overwrites:
  assumes "download_file cfg env url filename w = (r, w')"
  shows "(\<forall>q. os_path_exists (files w) q \<longrightarrow> map_of (files w') q = map_of (files w) q)
     \<and> (case os_path_splitext filename of
          (base_name, ext) \<Rightarrow>
            (case download_file_while (files w) (DOWNLOAD_DIR cfg) base_name ext
                    (os_path_join (DOWNLOAD_DIR cfg) filename) 1 of
               (p, c) \<Rightarrow>
                 \<not> os_path_exists (files w) p
                 \<and> (if os_path_exists (files w) (os_path_join (DOWNLOAD_DIR cfg) filename)
                     then 1 < c
                       \<and> p = numbered_path (DOWNLOAD_DIR cfg) base_name ext (c - 1)
                       \<and> (\<forall>k. 1 \<le> k \<and> k < c - 1 \<longrightarrow>
                             os_path_exists (files w)
                               (numbered_path (DOWNLOAD_DIR cfg) base_name ext k))
                     else p = os_path_join (DOWNLOAD_DIR cfg) filename)
                 \<and> (r = Inr True \<longrightarrow> os_path_exists (files w') p)
                 \<and> (\<forall>q. os_path_exists (files w') q \<longrightarrow> q = p \<or> os_path_exists (files w) q)))"
proof -
  obtain base_name ext where sp: "os_path_splitext filename = (base_name, ext)"
    by (metis prod.exhaust)
  obtain p c where lp: "download_file_while (files w) (DOWNLOAD_DIR cfg) base_name ext
           (os_path_join (DOWNLOAD_DIR cfg) filename) 1 = (p, c)"
    by (metis prod.exhaust)
  note res = download_file_while_result [OF lp]
  note fl = download_file_files [OF assms sp lp]
  have keep: "map_of (files w') q = map_of (files w) q" if "os_path_exists (files w) q" for q
  proof -
    from that res have "q \<noteq> p" by auto
    with fl show ?thesis by (auto simp: map_of_filter_other)
  qed
  have new: "os_path_exists (files w') p" if "r = Inr True"
    using fl that by (auto simp: os_path_exists_def)
  have only: "q = p \<or> os_path_exists (files w) q" if "os_path_exists (files w') q" for q
    using fl that by (auto simp: os_path_exists_def)
  from keep new only res lp show ?thesis
    by (auto simp: sp)
qed

text \<open>
  With \<^verbatim>\<open>file_5.txt\<close> present, a download of \<^verbatim>\<open>file_5.txt\<close> is written to
  \<^verbatim>\<open>file_5_1.txt\<close> and leaves the old copy as it was; the next one is written to
  \<^verbatim>\<open>file_5_2.txt\<close>.
\<close>

theorem download_never_overwrites_witness:
  "download_file (scenario_config 0 9) file_5_remote
       (candidate_url (scenario_config 0 9) 5 ''txt'') ''file_5.txt'' one_copy
     = (Inr True, two_copies)
   \<and> os_path_exists (files one_copy) ''downloaded_files/file_5.txt''
   \<and> map_of (files two_copies) ''downloaded_files/file_5.txt''
       = map_of (files one_copy) ''downloaded_files/file_5.txt''
   \<and> files two_copies
       = [(''downloaded_files/file_5_1.txt'', ''new''), (''downloaded_files/file_5.txt'', ''old'')]
   \<and> files (snd (download_file (scenario_config 0 9) file_5_remote
                    (candidate_url (scenario_config 0 9) 5 ''txt'') ''file_5.txt'' two_copies))
       = [(''downloaded_files/file_5_2.txt'', ''new''),
          (''downloaded_files/file_5_1.txt'', ''new''),
          (''downloaded_files/file_5.txt'', ''old'')]"
proof -
  have run: "download_file (scenario_config 0 9) file_5_remote
       (candidate_url (scenario_config 0 9) 5 ''txt'') ''file_5.txt'' one_copy
     = (Inr True, two_copies)"
    by code_simp
  have ex: "os_path_exists (files one_copy) ''downloaded_files/file_5.txt''"
    by code_simp
  from download_never_overwrites [OF run] ex
  have keep: "map_of (files two_copies) ''downloaded_files/file_5.txt''
       = map_of (files one_copy) ''downloaded_files/file_5.txt''"
    by blast
  have first: "files two_copies
       = [(''downloaded_files/file_5_1.txt'', ''new''), (''downloaded_files/file_5.txt'', ''old'')]"
    by code_simp
  have second: "files (snd (download_file (scenario_config 0 9) file_5_remote
                    (candidate_url (scenario_config 0 9) 5 ''txt'') ''file_5.txt'' two_copies))
       = [(''downloaded_files/file_5_2.txt'', ''new''),
          (''downloaded_files/file_5_1.txt'', ''new''),
          (''downloaded_files/file_5.txt'', ''old'')]"
    by code_simp
  from run ex keep first second show ?thesis by (intro conjI)
qed

end
